theory Spec2Isabelle
  imports Main "HOL-Library.Multiset"
begin

section \<open>Data model\<close>

text \<open>
  The pipeline of \<^verbatim>\<open>src/main.py\<close>: one metadata request, a fan-out of downloads
  gathered by \<^verbatim>\<open>asyncio.gather\<close>, and a fan-out of OpenCV jobs over a process pool,
  gathered the same way.

  Values decoded from the JSON response are Python values. Numbers are kept as integers:
  the code only compares a field with the string \<^verbatim>\<open>"image"\<close> and tests truthiness.
\<close>

datatype pyval =
    PNone
  | PBool bool
  | PInt int
  | PStr string
  | PList "pyval list"
  | PDict "(string \<times> pyval) list"

text \<open>A catalog item is a dict; the keys of the association list are distinct.\<close>

type_synonym item = "(string \<times> pyval) list"

text \<open>An instance of \<^verbatim>\<open>Exception\<close>, with the text \<^verbatim>\<open>str(e)\<close> gives.\<close>

type_synonym exn = string

type_synonym bytes = "nat list"

text \<open>
  \<^verbatim>\<open>response.status\<close> and the outcome of \<^verbatim>\<open>await response.read()\<close>.
\<close>

record response =
  status :: int
  read_body :: "exn + bytes"

text \<open>
  Outcome of \<^verbatim>\<open>aiofiles.open(path, "wb")\<close> followed by \<^verbatim>\<open>f.write(content)\<close>:
  the whole content is stored, or opening raises, or writing raises after some bytes
  have reached the file.
\<close>

datatype write_outcome = Written | OpenRaises exn | WriteRaises exn bytes

text \<open>
  The module \<^verbatim>\<open>config\<close> is imported by \<^verbatim>\<open>main.py\<close>; its two directories are
  parameters here.
\<close>

record config =
  SAVE_DIR :: string
  PROCESSED_DIR :: string

text \<open>
  What the download stage changes: the count \<^verbatim>\<open>n\<close> of the progress bar it is given,
  the files below the save directory, and the lines printed.
\<close>

record world =
  pbar_n :: nat
  disk :: "string \<rightharpoonup> bytes"
  stdout :: "string list"

section \<open>Python primitives\<close>

text \<open>\<^verbatim>\<open>dict.get(key)\<close>: the value, or \<^verbatim>\<open>None\<close> for a missing key.\<close>

definition dict_get :: "item \<Rightarrow> string \<Rightarrow> pyval" where
  "dict_get d k = (case map_of d k of None \<Rightarrow> PNone | Some v \<Rightarrow> v)"

text \<open>Truth value testing.\<close>

fun truthy :: "pyval \<Rightarrow> bool" where
  "truthy PNone = False"
| "truthy (PBool b) = b"
| "truthy (PInt i) = (i \<noteq> 0)"
| "truthy (PStr s) = (s \<noteq> [])"
| "truthy (PList xs) = (xs \<noteq> [])"
| "truthy (PDict kvs) = (kvs \<noteq> [])"

text \<open>\<^verbatim>\<open>a or b\<close> yields \<^verbatim>\<open>a\<close> when it is truthy and \<^verbatim>\<open>b\<close> otherwise.\<close>

definition py_or :: "pyval \<Rightarrow> pyval \<Rightarrow> pyval" where
  "py_or a b = (if truthy a then a else b)"

text \<open>Decimal text of a number, as an f-string renders an \<^verbatim>\<open>int\<close>.\<close>

definition digit_char :: "nat \<Rightarrow> char" where
  "digit_char d = char_of (48 + d)"

fun str_nat :: "nat \<Rightarrow> string" where
  "str_nat n = (if n < 10 then [digit_char n] else str_nat (n div 10) @ [digit_char (n mod 10)])"

declare str_nat.simps [simp del]

definition str_int :: "int \<Rightarrow> string" where
  "str_int i = (if i < 0 then CHR ''-'' # str_nat (nat (- i)) else str_nat (nat i))"

text \<open>\<^verbatim>\<open>os.path.join(a, b)\<close> of \<^verbatim>\<open>posixpath\<close>, for two components.\<close>

definition path_join :: "string \<Rightarrow> string \<Rightarrow> string" where
  "path_join a b =
     (if b \<noteq> [] \<and> hd b = CHR ''/'' then b
      else if a = [] \<or> last a = CHR ''/'' then a @ b
      else a @ ''/'' @ b)"

section \<open>Download task\<close>

text \<open>
  The \<^verbatim>\<open>except Exception\<close> branch of \<^verbatim>\<open>download_image\<close>: print, update the bar,
  return \<^verbatim>\<open>None\<close>.
\<close>

definition on_exception :: "string \<Rightarrow> exn \<Rightarrow> world \<Rightarrow> string option \<times> world" where
  "on_exception filename e w =
     (None, w\<lparr>stdout := stdout w @ [''Error downloading '' @ filename @ '': '' @ e],
              pbar_n := pbar_n w + 1\<rparr>)"

text \<open>
  \<^verbatim>\<open>download_image(session, url, filename, pbar)\<close>. The session answers a request with
  an exception or a response; \<open>aio\<close> gives the outcome of writing a content to a path.
  A response whose status is not 200 prints a line and leaves the \<^verbatim>\<open>try\<close> block, and
  the function ends without a \<^verbatim>\<open>return\<close>, which yields \<^verbatim>\<open>None\<close>.
\<close>

definition download_image ::
  "config \<Rightarrow> (pyval \<Rightarrow> exn + response) \<Rightarrow> (string \<Rightarrow> bytes \<Rightarrow> write_outcome) \<Rightarrow>
   pyval \<Rightarrow> string \<Rightarrow> world \<Rightarrow> string option \<times> world" where
  "download_image cfg session aio url filename w =
     (case session url of
        Inl e \<Rightarrow> on_exception filename e w
      | Inr resp \<Rightarrow>
          if status resp = 200 then
            (case read_body resp of
               Inl e \<Rightarrow> on_exception filename e w
             | Inr content \<Rightarrow>
                 (let path = path_join (SAVE_DIR cfg) filename in
                  case aio path content of
                    OpenRaises e \<Rightarrow> on_exception filename e w
                  | WriteRaises e part \<Rightarrow>
                      on_exception filename e (w\<lparr>disk := (disk w)(path \<mapsto> part)\<rparr>)
                  | Written \<Rightarrow>
                      (Some filename,
                       w\<lparr>disk := (disk w)(path \<mapsto> content), pbar_n := pbar_n w + 1\<rparr>)))
          else
            (None, w\<lparr>stdout := stdout w @
               [''Failed to download '' @ filename @ '': '' @ str_int (status resp)]\<rparr>))"

section \<open>Gathering concurrent tasks\<close>

text \<open>
  \<^verbatim>\<open>asyncio.gather(*tasks)\<close> runs the tasks concurrently and returns their results in
  the order of its arguments. A task prints and updates the bar in one step, with no
  \<^verbatim>\<open>await\<close> in between, and every task writes a file of its own, so the state a run
  reaches is described by the order in which the tasks take that step and finish:
  \<open>sched\<close> lists the indices of the tasks in that order. The slot of a task that has
  not finished is \<open>None\<close>.
\<close>

definition finish :: "('s \<Rightarrow> 'a \<times> 's) list \<Rightarrow> nat \<Rightarrow> 'a option list \<times> 's \<Rightarrow> 'a option list \<times> 's" where
  "finish tasks i rs =
     (if i < length tasks
      then (let (r, s') = (tasks ! i) (snd rs) in ((fst rs)[i := Some r], s'))
      else rs)"

definition gather :: "('s \<Rightarrow> 'a \<times> 's) list \<Rightarrow> nat list \<Rightarrow> 's \<Rightarrow> 'a option list \<times> 's" where
  "gather tasks sched s = fold (finish tasks) sched (replicate (length tasks) None, s)"

text \<open>The awaited value: the list of results once every slot is filled.\<close>

definition gathered :: "'a option list \<Rightarrow> 'a list option" where
  "gathered slots = (if list_all (\<lambda>r. r \<noteq> None) slots then Some (map the slots) else None)"

text \<open>A schedule in which each of the \<open>n\<close> tasks finishes once.\<close>

definition complete_schedule :: "nat \<Rightarrow> nat list \<Rightarrow> bool" where
  "complete_schedule n sched = (mset sched = mset [0..<n])"

section \<open>Metadata filter and download stage\<close>

text \<open>
  \<^verbatim>\<open>valid_items = [item for item in data if item.get("media_type") == "image"]\<close>
\<close>

definition valid_items :: "item list \<Rightarrow> item list" where
  "valid_items data = filter (\<lambda>item. dict_get item ''media_type'' = PStr ''image'') data"

text \<open>\<^verbatim>\<open>url = item.get("hdurl") or item.get("url")\<close>\<close>

definition item_url :: "item \<Rightarrow> pyval" where
  "item_url item = py_or (dict_get item ''hdurl'') (dict_get item ''url'')"

text \<open>\<^verbatim>\<open>f"space_{i}.jpg"\<close>\<close>

definition target_filename :: "nat \<Rightarrow> string" where
  "target_filename i = ''space_'' @ str_nat i @ ''.jpg''"

text \<open>
  The loop over \<^verbatim>\<open>enumerate(valid_items)\<close>: the arguments of each task, then the tasks.
\<close>

definition task_args :: "item list \<Rightarrow> (pyval \<times> string) list" where
  "task_args items = map (\<lambda>(i, item). (item_url item, target_filename i)) (enumerate 0 items)"

definition download_tasks ::
  "config \<Rightarrow> (pyval \<Rightarrow> exn + response) \<Rightarrow> (string \<Rightarrow> bytes \<Rightarrow> write_outcome) \<Rightarrow>
   item list \<Rightarrow> (world \<Rightarrow> string option \<times> world) list" where
  "download_tasks cfg session aio items =
     map (\<lambda>(url, filename). download_image cfg session aio url filename) (task_args items)"

text \<open>
  \<^verbatim>\<open>downloaded_files = [f for f in download_files if f]\<close>: \<^verbatim>\<open>None\<close> and the empty
  string are falsy.
\<close>

definition keep_file :: "string option \<Rightarrow> bool" where
  "keep_file f = (case f of None \<Rightarrow> False | Some name \<Rightarrow> name \<noteq> [])"

definition filter_downloaded :: "string option list \<Rightarrow> string list" where
  "filter_downloaded download_files = map the (filter keep_file download_files)"

text \<open>
  Lines 82 to 90 of \<^verbatim>\<open>main\<close>: a fresh bar, the tasks, the gather. The value is \<open>None\<close>
  when the gather never returns, otherwise \<^verbatim>\<open>download_files\<close> and the state reached.
\<close>

definition download_stage ::
  "config \<Rightarrow> (pyval \<Rightarrow> exn + response) \<Rightarrow> (string \<Rightarrow> bytes \<Rightarrow> write_outcome) \<Rightarrow>
   nat list \<Rightarrow> item list \<Rightarrow> world \<Rightarrow> (string option list \<times> world) option" where
  "download_stage cfg session aio sched items w0 =
     (let (slots, w) = gather (download_tasks cfg session aio items) sched (w0\<lparr>pbar_n := 0\<rparr>)
      in case gathered slots of
           None \<Rightarrow> None
         | Some download_files \<Rightarrow> Some (download_files, w))"

section \<open>Analysis stage\<close>

text \<open>
  The OpenCV calls of \<^verbatim>\<open>detect_stars_and_process\<close>, over any type of images and of
  keypoints. \<^verbatim>\<open>cv2.imread\<close> returns \<^verbatim>\<open>None\<close> for a file it cannot load.
\<close>

record ('img, 'kp) cv2 =
  imread :: "string \<Rightarrow> 'img option"
  cvtColor :: "'img \<Rightarrow> 'img"
  detect :: "'img \<Rightarrow> 'kp list"
  drawKeypoints :: "'img \<Rightarrow> 'kp list \<Rightarrow> 'img"

text \<open>
  \<^verbatim>\<open>detect_stars_and_process(filename)\<close>: the summary it returns, and the files handed
  to \<^verbatim>\<open>cv2.imwrite\<close> so far.
\<close>

definition detect_stars_and_process ::
  "config \<Rightarrow> ('img, 'kp) cv2 \<Rightarrow> string \<Rightarrow> (string \<rightharpoonup> 'img) \<Rightarrow> string \<times> (string \<rightharpoonup> 'img)" where
  "detect_stars_and_process cfg cv filename out =
     (let input_path = path_join (SAVE_DIR cfg) filename;
          output_path = path_join (PROCESSED_DIR cfg) (''detected_'' @ filename)
      in case imread cv input_path of
           None \<Rightarrow> (''Error loading '' @ filename, out)
         | Some img \<Rightarrow>
             (let gray = cvtColor cv img;
                  keypoints = detect cv gray;
                  img_with_keys = drawKeypoints cv img keypoints
              in (''Found '' @ str_nat (length keypoints) @ '' stars in '' @ filename,
                  out(output_path \<mapsto> img_with_keys))))"

record 'img analysis_world =
  analysis_n :: nat
  processed :: "string \<rightharpoonup> 'img"

text \<open>
  A future of \<^verbatim>\<open>loop.run_in_executor\<close> with its done callback
  \<^verbatim>\<open>lambda _: pbar.update(1)\<close>: when the job is done its file has been written, the
  callback runs, and the result is handed to the gather.
\<close>

definition analysis_job ::
  "config \<Rightarrow> ('img, 'kp) cv2 \<Rightarrow> string \<Rightarrow> 'img analysis_world \<Rightarrow> string \<times> 'img analysis_world" where
  "analysis_job cfg cv fname w =
     (let (summary, out) = detect_stars_and_process cfg cv fname (processed w)
      in (summary, w\<lparr>processed := out, analysis_n := analysis_n w + 1\<rparr>))"

text \<open>Lines 100 to 115 of \<^verbatim>\<open>main\<close>.\<close>

definition analysis_stage ::
  "config \<Rightarrow> ('img, 'kp) cv2 \<Rightarrow> nat list \<Rightarrow> string list \<Rightarrow> (string \<rightharpoonup> 'img) \<Rightarrow>
   (string list \<times> 'img analysis_world) option" where
  "analysis_stage cfg cv sched downloaded_files out0 =
     (let results = map (analysis_job cfg cv) downloaded_files;
          (slots, w) = gather results sched \<lparr>analysis_n = 0, processed = out0\<rparr>
      in case gathered slots of
           None \<Rightarrow> None
         | Some analysis_summaries \<Rightarrow> Some (analysis_summaries, w))"

section \<open>The whole run\<close>

record 'img run =
  download_files :: "string option list"
  download_world :: world
  downloaded_files :: "string list"
  analysis_summaries :: "string list"
  analysis_end :: "'img analysis_world"

text \<open>
  \<^verbatim>\<open>main\<close> after the metadata request: \<open>data\<close> is the decoded response, \<open>dsched\<close> and
  \<open>asched\<close> are the orders in which the downloads and the analysis jobs finish.
\<close>

definition main ::
  "config \<Rightarrow> (pyval \<Rightarrow> exn + response) \<Rightarrow> (string \<Rightarrow> bytes \<Rightarrow> write_outcome) \<Rightarrow>
   ('img, 'kp) cv2 \<Rightarrow> nat list \<Rightarrow> nat list \<Rightarrow> item list \<Rightarrow> world \<Rightarrow> (string \<rightharpoonup> 'img) \<Rightarrow>
   'img run option" where
  "main cfg session aio cv dsched asched data w0 out0 =
     (case download_stage cfg session aio dsched (valid_items data) w0 of
        None \<Rightarrow> None
      | Some (dl, w) \<Rightarrow>
          (case analysis_stage cfg cv asched (filter_downloaded dl) out0 of
             None \<Rightarrow> None
           | Some (summaries, aw) \<Rightarrow>
               Some \<lparr>download_files = dl, download_world = w,
                     downloaded_files = filter_downloaded dl,
                     analysis_summaries = summaries, analysis_end = aw\<rparr>))"

section \<open>Outcomes of one download\<close>

text \<open>
  The three ways through \<^verbatim>\<open>download_image\<close>, read off the answers of the session and
  of the file system: a status other than 200; an exception raised by the request, by
  reading the body, or by opening or writing the file; and the success that remains.
\<close>

definition bad_status ::
  "(pyval \<Rightarrow> exn + response) \<Rightarrow> pyval \<Rightarrow> bool" where
  "bad_status session url =
     (case session url of Inl e \<Rightarrow> False | Inr resp \<Rightarrow> status resp \<noteq> 200)"

definition raised ::
  "config \<Rightarrow> (pyval \<Rightarrow> exn + response) \<Rightarrow> (string \<Rightarrow> bytes \<Rightarrow> write_outcome) \<Rightarrow>
   pyval \<Rightarrow> string \<Rightarrow> exn option" where
  "raised cfg session aio url filename =
     (case session url of
        Inl e \<Rightarrow> Some e
      | Inr resp \<Rightarrow>
          if status resp = 200 then
            (case read_body resp of
               Inl e \<Rightarrow> Some e
             | Inr content \<Rightarrow>
                 (case aio (path_join (SAVE_DIR cfg) filename) content of
                    OpenRaises e \<Rightarrow> Some e
                  | WriteRaises e part \<Rightarrow> Some e
                  | Written \<Rightarrow> None))
          else None)"

definition download_ok ::
  "config \<Rightarrow> (pyval \<Rightarrow> exn + response) \<Rightarrow> (string \<Rightarrow> bytes \<Rightarrow> write_outcome) \<Rightarrow>
   pyval \<Rightarrow> string \<Rightarrow> bool" where
  "download_ok cfg session aio url filename =
     (case session url of
        Inl e \<Rightarrow> False
      | Inr resp \<Rightarrow>
          status resp = 200 \<and>
          (case read_body resp of
             Inl e \<Rightarrow> False
           | Inr content \<Rightarrow> aio (path_join (SAVE_DIR cfg) filename) content = Written))"

text \<open>Whether the \<open>i\<close>-th of the filtered items is downloaded and saved.\<close>

definition item_ok ::
  "config \<Rightarrow> (pyval \<Rightarrow> exn + response) \<Rightarrow> (string \<Rightarrow> bytes \<Rightarrow> write_outcome) \<Rightarrow>
   item list \<Rightarrow> nat \<Rightarrow> bool" where
  "item_ok cfg session aio items i =
     download_ok cfg session aio (item_url (items ! i)) (target_filename i)"

text \<open>The positions, in increasing order, of the items that are downloaded and saved.\<close>

definition saved ::
  "config \<Rightarrow> (pyval \<Rightarrow> exn + response) \<Rightarrow> (string \<Rightarrow> bytes \<Rightarrow> write_outcome) \<Rightarrow>
   item list \<Rightarrow> nat list" where
  "saved cfg session aio items = filter (item_ok cfg session aio items) [0..<length items]"

text \<open>
  The summary \<^verbatim>\<open>detect_stars_and_process\<close> returns for a file name, read off the
  answers of OpenCV.
\<close>

definition summary_of :: "config \<Rightarrow> ('img, 'kp) cv2 \<Rightarrow> string \<Rightarrow> string" where
  "summary_of cfg cv filename =
     (case imread cv (path_join (SAVE_DIR cfg) filename) of
        None \<Rightarrow> ''Error loading '' @ filename
      | Some img \<Rightarrow>
          ''Found '' @ str_nat (length (detect cv (cvtColor cv img))) @ '' stars in '' @ filename)"

section \<open>A sample run\<close>

text \<open>
  Four catalog items, one of them a video. Of the three images the first is served and
  saved, the second is answered with status 404, and the request of the third raises.
\<close>

definition demo_cfg :: config where
  "demo_cfg = \<lparr>SAVE_DIR = ''images'', PROCESSED_DIR = ''processed''\<rparr>"

definition demo_data :: "item list" where
  "demo_data =
     [[(''media_type'', PStr ''image''), (''hdurl'', PStr ''h0''), (''url'', PStr ''u0'')],
      [(''media_type'', PStr ''video''), (''url'', PStr ''v'')],
      [(''media_type'', PStr ''image''), (''url'', PStr ''u1'')],
      [(''media_type'', PStr ''image''), (''hdurl'', PStr ''h2'')]]"

definition demo_session :: "pyval \<Rightarrow> exn + response" where
  "demo_session url =
     (if url = PStr ''h0'' then Inr \<lparr>status = 200, read_body = Inr [255, 216]\<rparr>
      else if url = PStr ''u1'' then Inr \<lparr>status = 404, read_body = Inr []\<rparr>
      else Inl ''timeout'')"

definition demo_aio :: "string \<Rightarrow> bytes \<Rightarrow> write_outcome" where
  "demo_aio path content = Written"

definition demo_world :: world where
  "demo_world = \<lparr>pbar_n = 0, disk = Map.empty, stdout = []\<rparr>"

definition demo_cv :: "(nat list, nat) cv2" where
  "demo_cv =
     \<lparr>imread = (\<lambda>path. if path = ''images/space_0.jpg'' then Some [3, 1, 4] else None),
      cvtColor = (\<lambda>img. img),
      detect = (\<lambda>img. img),
      drawKeypoints = (\<lambda>img keypoints. img)\<rparr>"

section \<open>Properties of the gather\<close>

lemma fold_finish_length:
  "length (fst (fold (finish tasks) sched rs)) = length (fst rs)"
proof (induction sched arbitrary: rs)
  case Nil
  show ?case by simp
next
  case (Cons i sched)
  have "length (fst (finish tasks i rs)) = length (fst rs)"
    by (simp add: finish_def case_prod_beta)
  with Cons show ?case by simp
qed

lemma fold_finish_slots:
  assumes indep: "\<And>i s. i < length tasks \<Longrightarrow> fst ((tasks ! i) s) = r i"
    and len: "length (fst rs) = length tasks"
    and j: "j < length tasks"
  shows "fst (fold (finish tasks) sched rs) ! j =
         (if j \<in> set sched then Some (r j) else fst rs ! j)"
  using len
proof (induction sched arbitrary: rs rule: rev_induct)
  case Nil
  show ?case by simp
next
  case (snoc i sched)
  define mid where "mid = fold (finish tasks) sched rs"
  have step: "fold (finish tasks) (sched @ [i]) rs = finish tasks i mid"
    by (simp add: mid_def)
  have lm: "length (fst mid) = length tasks"
    using snoc.prems by (simp add: mid_def fold_finish_length)
  have ih: "fst mid ! j = (if j \<in> set sched then Some (r j) else fst rs ! j)"
    unfolding mid_def using snoc by simp
  show ?case
  proof (cases "i < length tasks")
    case False
    with j have "i \<noteq> j" by auto
    moreover have "finish tasks i mid = mid"
      using False by (simp add: finish_def)
    ultimately show ?thesis using ih step by simp
  next
    case True
    have "fst (finish tasks i mid) = (fst mid)[i := Some (r i)]"
      using True indep [OF True, of "snd mid"]
      by (simp add: finish_def case_prod_beta)
    then show ?thesis using ih lm j True step
      by (simp add: nth_list_update)
  qed
qed

lemma gather_results:
  assumes indep: "\<And>i s. i < length tasks \<Longrightarrow> fst ((tasks ! i) s) = r i"
    and sched: "complete_schedule (length tasks) sched"
  shows "gathered (fst (gather tasks sched s)) = Some (map r [0..<length tasks])"
proof -
  let ?slots = "fst (gather tasks sched s)"
  have set_sched: "set sched = {0..<length tasks}"
    using sched mset_eq_setD [of sched "[0..<length tasks]"]
    by (simp add: complete_schedule_def)
  have len: "length ?slots = length tasks"
    by (simp add: gather_def fold_finish_length)
  have nth: "?slots ! j = Some (r j)" if "j < length tasks" for j
    using fold_finish_slots [of tasks r "(replicate (length tasks) None, s)" j sched]
      indep that set_sched
    by (simp add: gather_def)
  have eq: "?slots = map (\<lambda>j. Some (r j)) [0..<length tasks]"
    by (rule nth_equalityI) (simp_all add: len nth)
  show ?thesis
    unfolding eq gathered_def by (simp add: list_all_iff comp_def)
qed

lemma fold_finish_count:
  assumes step: "\<And>i s. i < length tasks \<Longrightarrow> c (snd ((tasks ! i) s)) = c s + k i"
  shows "c (snd (fold (finish tasks) sched rs)) =
         c (snd rs) + sum_list (map (\<lambda>i. if i < length tasks then k i else 0) sched)"
proof (induction sched arbitrary: rs)
  case Nil
  show ?case by simp
next
  case (Cons i sched)
  have "c (snd (finish tasks i rs)) = c (snd rs) + (if i < length tasks then k i else 0)"
    using step [of i "snd rs"] by (simp add: finish_def case_prod_beta)
  with Cons [of "finish tasks i rs"] show ?case by (simp add: add.assoc)
qed

lemma sum_list_schedule:
  fixes k :: "nat \<Rightarrow> nat"
  assumes "mset xs = mset ys"
  shows "sum_list (map k xs) = sum_list (map k ys)"
proof -
  have "sum_mset (mset (map k xs)) = sum_mset (mset (map k ys))"
    using assms by simp
  then show ?thesis by (simp only: sum_mset_sum_list)
qed

lemma gather_count:
  fixes k :: "nat \<Rightarrow> nat"
  assumes step: "\<And>i s. i < length tasks \<Longrightarrow> c (snd ((tasks ! i) s)) = c s + k i"
    and sched: "complete_schedule (length tasks) sched"
  shows "c (snd (gather tasks sched s)) = c s + sum_list (map k [0..<length tasks])"
proof -
  let ?k = "\<lambda>i. if i < length tasks then k i else 0"
  have "sum_list (map ?k sched) = sum_list (map ?k [0..<length tasks])"
    using sched unfolding complete_schedule_def by (rule sum_list_schedule)
  also have "\<dots> = sum_list (map k [0..<length tasks])"
    by (rule arg_cong [where f = sum_list]) simp
  finally show ?thesis
    using fold_finish_count [of tasks c k sched "(replicate (length tasks) None, s)", OF step]
    by (simp add: gather_def)
qed

section \<open>Metadata filter and task creation\<close>

lemma dict_get_image:
  "(dict_get item k = PStr s) = (map_of item k = Some (PStr s))"
  by (simp add: dict_get_def split: option.splits)

lemma length_task_args: "length (task_args items) = length items"
  by (simp add: task_args_def)

lemma nth_task_args:
  "i < length items \<Longrightarrow> task_args items ! i = (item_url (items ! i), target_filename i)"
  by (simp add: task_args_def nth_enumerate_eq)

text \<open>
  Claim C8, as stated, fails: an item whose \<^verbatim>\<open>hdurl\<close> field is present and holds the
  empty string is requested at its \<^verbatim>\<open>url\<close>, because \<^verbatim>\<open>or\<close> tests the truth value of
  its left operand and not its presence.
\<close>

theorem hdurl_present_but_empty:
  "map_of [(''media_type'', PStr ''image''), (''hdurl'', PStr ''''), (''url'', PStr ''u'')] ''hdurl''
     = Some (PStr '''') \<and>
   item_url [(''media_type'', PStr ''image''), (''hdurl'', PStr ''''), (''url'', PStr ''u'')]
     = PStr ''u'' \<and>
   item_url [(''media_type'', PStr ''image''), (''hdurl'', PStr ''''), (''url'', PStr ''u'')]
     \<noteq> PStr ''''"
  by (simp add: item_url_def py_or_def dict_get_def)

text \<open>
  Claim C8, amended. The URL of the request is the \<^verbatim>\<open>hdurl\<close> field of the item when
  that field is present and truthy (a non-empty string), and otherwise what
  \<^verbatim>\<open>item.get("url")\<close> yields: the \<^verbatim>\<open>url\<close> field, or \<^verbatim>\<open>None\<close> when it is missing.
\<close>

theorem item_url_truthy_hdurl:
  "item_url item =
     (case map_of item ''hdurl'' of
        Some v \<Rightarrow> if truthy v then v else dict_get item ''url''
      | None \<Rightarrow> dict_get item ''url'')"
  by (simp add: item_url_def py_or_def dict_get_def split: option.splits)

theorem item_url_truthy_hdurl_witness:
  "item_url [(''hdurl'', PStr ''h''), (''url'', PStr ''u'')] = PStr ''h'' \<and>
   item_url [(''hdurl'', PNone), (''url'', PStr ''u'')] = PStr ''u'' \<and>
   item_url [(''url'', PStr ''u'')] = PStr ''u''"
  using item_url_truthy_hdurl [of "[(''hdurl'', PStr ''h''), (''url'', PStr ''u'')]"]
    item_url_truthy_hdurl [of "[(''hdurl'', PNone), (''url'', PStr ''u'')]"]
    item_url_truthy_hdurl [of "[(''url'', PStr ''u'')]"]
  by (simp add: dict_get_def)

section \<open>File names\<close>

text \<open>Index-based names are pairwise distinct, and so are the paths they are saved at.\<close>

lemma digit_char_inj:
  assumes "a < 10" "b < 10" "digit_char a = digit_char b"
  shows "a = b"
proof -
  have a: "(of_char (digit_char a) :: nat) = 48 + a"
    using assms(1) by (simp add: digit_char_def)
  have b: "(of_char (digit_char b) :: nat) = 48 + b"
    using assms(2) by (simp add: digit_char_def)
  have "(of_char (digit_char a) :: nat) = of_char (digit_char b)"
    using assms(3) by (rule arg_cong)
  then have "48 + a = 48 + b" unfolding a b .
  then show ?thesis by (rule add_left_imp_eq)
qed

lemma str_nat_nonempty: "str_nat n \<noteq> []"
  by (subst str_nat.simps) simp

lemma str_nat_inj: "str_nat m = str_nat n \<Longrightarrow> m = n"
proof (induction m arbitrary: n rule: str_nat.induct)
  case (1 m)
  show ?case
  proof (cases "m < 10")
    case True
    then have m: "str_nat m = [digit_char m]" by (subst str_nat.simps) simp
    show ?thesis
    proof (cases "n < 10")
      case n: True
      then have "str_nat n = [digit_char n]" by (subst str_nat.simps) simp
      with m "1.prems" have "digit_char m = digit_char n" by simp
      with True n show ?thesis by (rule digit_char_inj)
    next
      case False
      then have "str_nat n = str_nat (n div 10) @ [digit_char (n mod 10)]"
        by (subst str_nat.simps) simp
      with m "1.prems" str_nat_nonempty [of "n div 10"] show ?thesis by simp
    qed
  next
    case False
    then have m: "str_nat m = str_nat (m div 10) @ [digit_char (m mod 10)]"
      by (subst str_nat.simps) simp
    show ?thesis
    proof (cases "n < 10")
      case True
      then have "str_nat n = [digit_char n]" by (subst str_nat.simps) simp
      with m "1.prems" str_nat_nonempty [of "m div 10"] show ?thesis by simp
    next
      case n: False
      then have "str_nat n = str_nat (n div 10) @ [digit_char (n mod 10)]"
        by (subst str_nat.simps) simp
      with m "1.prems" have eq: "str_nat (m div 10) = str_nat (n div 10)"
        and d: "digit_char (m mod 10) = digit_char (n mod 10)" by simp_all
      from "1.IH" [OF False eq] have q: "m div 10 = n div 10" .
      have r: "m mod 10 = n mod 10"
        by (rule digit_char_inj [OF _ _ d]) simp_all
      have "m = 10 * (m div 10) + m mod 10" by simp
      also have "\<dots> = 10 * (n div 10) + n mod 10" by (simp only: q r)
      also have "\<dots> = n" by simp
      finally show ?thesis .
    qed
  qed
qed

lemma target_filename_nonempty: "target_filename i \<noteq> []"
  by (simp add: target_filename_def)

lemma target_filename_inj: "target_filename i = target_filename j \<Longrightarrow> i = j"
  by (rule str_nat_inj) (simp add: target_filename_def)

lemma save_path_prefix:
  "path_join d (target_filename i) =
   (if d = [] \<or> last d = CHR ''/'' then d else d @ ''/'') @ target_filename i"
  by (simp add: path_join_def target_filename_def)

lemma save_path_inj:
  assumes "path_join d (target_filename i) = path_join d (target_filename j)"
  shows "i = j"
proof -
  from assms have "target_filename i = target_filename j"
    unfolding save_path_prefix by (rule same_append_eq [THEN iffD1])
  then show ?thesis by (rule target_filename_inj)
qed

section \<open>One download, and the stage\<close>

lemma fold_finish_invariant:
  assumes pres: "\<And>j s. j < length tasks \<Longrightarrow> Q s \<Longrightarrow> Q (snd ((tasks ! j) s))"
    and init: "Q (snd rs)"
  shows "Q (snd (fold (finish tasks) sched rs))"
  using init
proof (induction sched arbitrary: rs)
  case Nil
  then show ?case by simp
next
  case (Cons i sched)
  have "Q (snd (finish tasks i rs))"
    using pres [of i "snd rs"] Cons.prems by (simp add: finish_def case_prod_beta)
  then show ?case using Cons.IH by simp
qed

lemma fold_finish_establish:
  assumes pres: "\<And>j s. j < length tasks \<Longrightarrow> Q s \<Longrightarrow> Q (snd ((tasks ! j) s))"
    and est: "\<And>s. Q (snd ((tasks ! i) s))"
    and i: "i < length tasks" "i \<in> set sched"
  shows "Q (snd (fold (finish tasks) sched rs))"
  using i(2)
proof (induction sched arbitrary: rs)
  case Nil
  then show ?case by simp
next
  case (Cons k sched)
  show ?case
  proof (cases "k = i")
    case True
    have "Q (snd (finish tasks i rs))"
      using est [of "snd rs"] i(1) by (simp add: finish_def case_prod_beta)
    then have "Q (snd (fold (finish tasks) sched (finish tasks i rs)))"
      using pres by (rule fold_finish_invariant [rotated])
    with True show ?thesis by simp
  next
    case False
    with Cons.prems have "i \<in> set sched" by simp
    then show ?thesis using Cons.IH by simp
  qed
qed

lemma complete_schedule_set:
  "complete_schedule n sched \<Longrightarrow> set sched = {0..<n}"
  using mset_eq_setD [of sched "[0..<n]"] by (simp add: complete_schedule_def)

lemma download_image_result:
  "fst (download_image cfg session aio url filename w) =
   (if download_ok cfg session aio url filename then Some filename else None)"
  by (simp add: download_image_def download_ok_def on_exception_def Let_def
      split: sum.splits write_outcome.splits)

lemma download_image_count:
  "pbar_n (snd (download_image cfg session aio url filename w)) =
   pbar_n w + (if bad_status session url then 0 else 1)"
  by (simp add: download_image_def bad_status_def on_exception_def Let_def
      split: sum.splits write_outcome.splits)

lemma download_image_stdout_grows:
  "line \<in> set (stdout w) \<Longrightarrow>
   line \<in> set (stdout (snd (download_image cfg session aio url filename w)))"
  by (simp add: download_image_def on_exception_def Let_def
      split: sum.splits write_outcome.splits)

lemma download_image_other_path:
  "p \<noteq> path_join (SAVE_DIR cfg) filename \<Longrightarrow>
   disk (snd (download_image cfg session aio url filename w)) p = disk w p"
  by (simp add: download_image_def on_exception_def Let_def
      split: sum.splits write_outcome.splits)

lemma download_image_bad_status:
  assumes "session url = Inr resp" "status resp \<noteq> 200"
  shows "download_image cfg session aio url filename w =
     (None, w\<lparr>stdout := stdout w @
        [''Failed to download '' @ filename @ '': '' @ str_int (status resp)]\<rparr>)"
  using assms by (simp add: download_image_def)

lemma download_image_raised:
  assumes "raised cfg session aio url filename = Some e"
  shows "fst (download_image cfg session aio url filename w) = None \<and>
     stdout (snd (download_image cfg session aio url filename w)) =
       stdout w @ [''Error downloading '' @ filename @ '': '' @ e] \<and>
     pbar_n (snd (download_image cfg session aio url filename w)) = pbar_n w + 1"
  using assms unfolding download_image_def raised_def on_exception_def Let_def
  by (auto split: sum.splits write_outcome.splits if_splits)

lemma length_download_tasks: "length (download_tasks cfg session aio items) = length items"
  by (simp add: download_tasks_def length_task_args)

lemma nth_download_tasks:
  "i < length items \<Longrightarrow>
   download_tasks cfg session aio items ! i =
   download_image cfg session aio (item_url (items ! i)) (target_filename i)"
  by (simp add: download_tasks_def length_task_args nth_task_args)

lemma download_stage_results:
  assumes "complete_schedule (length items) sched"
  shows "download_stage cfg session aio sched items w0 =
     Some (map (\<lambda>i. if item_ok cfg session aio items i then Some (target_filename i) else None)
             [0..<length items],
           snd (gather (download_tasks cfg session aio items) sched (w0\<lparr>pbar_n := 0\<rparr>)))"
proof -
  let ?tasks = "download_tasks cfg session aio items"
  let ?r = "\<lambda>i. if item_ok cfg session aio items i then Some (target_filename i) else None"
  have indep: "\<And>i s. i < length ?tasks \<Longrightarrow> fst ((?tasks ! i) s) = ?r i"
    by (simp add: length_download_tasks nth_download_tasks download_image_result item_ok_def)
  have sched: "complete_schedule (length ?tasks) sched"
    using assms by (simp add: length_download_tasks)
  have "gathered (fst (gather ?tasks sched (w0\<lparr>pbar_n := 0\<rparr>))) = Some (map ?r [0..<length ?tasks])"
    using indep sched by (rule gather_results)
  then show ?thesis
    by (simp add: download_stage_def case_prod_beta length_download_tasks)
qed

lemma filter_downloaded_results:
  "filter_downloaded (map (\<lambda>i. if ok i then Some (target_filename i) else None) xs) =
   map target_filename (filter ok xs)"
  by (induction xs) (simp_all add: filter_downloaded_def keep_file_def target_filename_nonempty)

lemma sum_list_count:
  "sum_list (map (\<lambda>i. if P i then 0 else (1::nat)) xs) = length (filter (\<lambda>i. \<not> P i) xs)"
  by (induction xs) simp_all

lemma download_stage_count:
  assumes "complete_schedule (length items) sched"
  shows "pbar_n (snd (gather (download_tasks cfg session aio items) sched (w0\<lparr>pbar_n := 0\<rparr>))) =
     length (filter (\<lambda>i. \<not> bad_status session (item_url (items ! i))) [0..<length items])"
proof -
  let ?tasks = "download_tasks cfg session aio items"
  let ?k = "\<lambda>i. if bad_status session (item_url (items ! i)) then 0 else (1::nat)"
  have step: "\<And>i s. i < length ?tasks \<Longrightarrow> pbar_n (snd ((?tasks ! i) s)) = pbar_n s + ?k i"
    by (simp add: length_download_tasks nth_download_tasks download_image_count)
  have sched: "complete_schedule (length ?tasks) sched"
    using assms by (simp add: length_download_tasks)
  have "pbar_n (snd (gather ?tasks sched (w0\<lparr>pbar_n := 0\<rparr>))) =
      pbar_n (w0\<lparr>pbar_n := 0\<rparr>) + sum_list (map ?k [0..<length ?tasks])"
    using step sched by (rule gather_count)
  then show ?thesis
    by (simp add: length_download_tasks sum_list_count)
qed

lemma download_tasks_map:
  "download_tasks cfg session aio items =
   map (\<lambda>i. download_image cfg session aio (item_url (items ! i)) (target_filename i))
     [0..<length items]"
  by (rule nth_equalityI) (simp_all add: length_download_tasks nth_download_tasks)

lemma saved_names:
  "filter_downloaded
     (map (\<lambda>i. if item_ok cfg session aio items i then Some (target_filename i) else None)
        [0..<length items]) =
   map target_filename (saved cfg session aio items)"
  by (simp add: saved_def filter_downloaded_results)

section \<open>Results of the analysis stage\<close>

lemma detect_stars_and_process_summary:
  "fst (detect_stars_and_process cfg cv filename out) = summary_of cfg cv filename"
  by (simp add: detect_stars_and_process_def summary_of_def Let_def split: option.splits)

lemma analysis_job_summary:
  "fst (analysis_job cfg cv fname w) = summary_of cfg cv fname"
  by (simp add: analysis_job_def case_prod_beta detect_stars_and_process_summary)

lemma analysis_job_count:
  "analysis_n (snd (analysis_job cfg cv fname w)) = analysis_n w + 1"
  by (simp add: analysis_job_def case_prod_beta)

lemma analysis_stage_results:
  assumes "complete_schedule (length files) sched"
  shows "analysis_stage cfg cv sched files out0 =
     Some (map (summary_of cfg cv) files,
           snd (gather (map (analysis_job cfg cv) files) sched
                  \<lparr>analysis_n = 0, processed = out0\<rparr>))"
proof -
  let ?tasks = "map (analysis_job cfg cv) files"
  let ?s0 = "\<lparr>analysis_n = 0, processed = out0\<rparr>"
  have indep: "\<And>i s. i < length ?tasks \<Longrightarrow> fst ((?tasks ! i) s) = summary_of cfg cv (files ! i)"
    by (simp add: analysis_job_summary)
  have sched: "complete_schedule (length ?tasks) sched"
    using assms by simp
  have "gathered (fst (gather ?tasks sched ?s0)) =
      Some (map (\<lambda>i. summary_of cfg cv (files ! i)) [0..<length ?tasks])"
    using indep sched by (rule gather_results)
  moreover have "map (\<lambda>i. summary_of cfg cv (files ! i)) [0..<length files] =
      map (summary_of cfg cv) files"
    by (rule nth_equalityI) simp_all
  ultimately show ?thesis
    by (simp add: analysis_stage_def Let_def case_prod_beta)
qed

lemma analysis_stage_count:
  assumes "complete_schedule (length files) sched"
  shows "analysis_n (snd (gather (map (analysis_job cfg cv) files) sched
            \<lparr>analysis_n = 0, processed = out0\<rparr>)) = length files"
proof -
  let ?tasks = "map (analysis_job cfg cv) files"
  let ?s0 = "\<lparr>analysis_n = 0, processed = out0\<rparr>"
  have step: "\<And>i s. i < length ?tasks \<Longrightarrow>
      analysis_n (snd ((?tasks ! i) s)) = analysis_n s + (\<lambda>i. 1) i"
    by (simp add: analysis_job_count)
  have sched: "complete_schedule (length ?tasks) sched"
    using assms by simp
  have "analysis_n (snd (gather ?tasks sched ?s0)) =
      analysis_n ?s0 + sum_list (map (\<lambda>i. 1) [0..<length ?tasks])"
    using step sched by (rule gather_count)
  then show ?thesis
    by (simp add: sum_list_triv)
qed

section \<open>Result of a whole run\<close>

lemma main_run:
  assumes d: "complete_schedule (length (valid_items data)) dsched"
    and a: "complete_schedule (length (saved cfg session aio (valid_items data))) asched"
  shows "main cfg session aio cv dsched asched data w0 out0 =
     Some \<lparr>download_files =
             map (\<lambda>i. if item_ok cfg session aio (valid_items data) i
                      then Some (target_filename i) else None)
               [0..<length (valid_items data)],
           download_world =
             snd (gather (download_tasks cfg session aio (valid_items data)) dsched
                    (w0\<lparr>pbar_n := 0\<rparr>)),
           downloaded_files = map target_filename (saved cfg session aio (valid_items data)),
           analysis_summaries =
             map (summary_of cfg cv) (map target_filename (saved cfg session aio (valid_items data))),
           analysis_end =
             snd (gather
                    (map (analysis_job cfg cv)
                       (map target_filename (saved cfg session aio (valid_items data))))
                    asched \<lparr>analysis_n = 0, processed = out0\<rparr>)\<rparr>"
proof -
  let ?dl = "map (\<lambda>i. if item_ok cfg session aio (valid_items data) i
                      then Some (target_filename i) else None)
               [0..<length (valid_items data)]"
  let ?names = "map target_filename (saved cfg session aio (valid_items data))"
  have a': "complete_schedule (length ?names) asched"
    using a by simp
  have dl: "download_stage cfg session aio dsched (valid_items data) w0 =
      Some (?dl, snd (gather (download_tasks cfg session aio (valid_items data)) dsched
                    (w0\<lparr>pbar_n := 0\<rparr>)))"
    using d by (rule download_stage_results)
  have fd: "filter_downloaded ?dl = ?names"
    by (rule saved_names)
  have an: "analysis_stage cfg cv asched ?names out0 =
      Some (map (summary_of cfg cv) ?names,
            snd (gather (map (analysis_job cfg cv) ?names) asched
                   \<lparr>analysis_n = 0, processed = out0\<rparr>))"
    using a' by (rule analysis_stage_results)
  show ?thesis
    by (simp only: main_def dl fd an option.case prod.case)
qed

section \<open>The sample run, evaluated\<close>

lemma demo_valid_items:
  "valid_items demo_data =
     [[(''media_type'', PStr ''image''), (''hdurl'', PStr ''h0''), (''url'', PStr ''u0'')],
      [(''media_type'', PStr ''image''), (''url'', PStr ''u1'')],
      [(''media_type'', PStr ''image''), (''hdurl'', PStr ''h2'')]]"
  by (simp add: valid_items_def demo_data_def dict_get_def)

lemma upt_3: "[0..<3] = [0, Suc 0, 2]"
  by code_simp

lemma schedule_3: "complete_schedule 3 [2, 0, Suc 0]" "complete_schedule 3 [0, Suc 0, 2]"
  by (simp_all add: complete_schedule_def upt_3 add_mset_commute)

lemma schedule_1: "complete_schedule (Suc 0) [0]"
  by (simp add: complete_schedule_def)

lemma demo_names:
  "target_filename 0 = ''space_0.jpg''" "target_filename (Suc 0) = ''space_1.jpg''"
  "target_filename 2 = ''space_2.jpg''" "target_filename (Suc (Suc 0)) = ''space_2.jpg''"
  by code_simp+

lemma demo_digits:
  "str_nat 0 = ''0''" "str_nat (Suc 0) = ''1''" "str_nat 2 = ''2''"
  by code_simp+

lemma demo_ok:
  "item_ok demo_cfg demo_session demo_aio (valid_items demo_data) 0"
  "\<not> item_ok demo_cfg demo_session demo_aio (valid_items demo_data) (Suc 0)"
  "\<not> item_ok demo_cfg demo_session demo_aio (valid_items demo_data) 2"
  by (simp_all add: demo_valid_items item_ok_def download_ok_def item_url_def py_or_def
      dict_get_def demo_session_def demo_aio_def)

lemma demo_length: "length (valid_items demo_data) = 3"
  by (simp add: demo_valid_items)

lemma demo_saved: "saved demo_cfg demo_session demo_aio (valid_items demo_data) = [0]"
  by (simp add: saved_def demo_length upt_3 demo_ok)

section \<open>The filter and the tasks of a run\<close>

text \<open>
  Claim C7. In a run of \<^verbatim>\<open>main\<close> on the response \<open>data\<close>, the filtered list is exactly
  the list of the items of \<open>data\<close> whose \<^verbatim>\<open>media_type\<close> field is present and equal to the
  string \<^verbatim>\<open>"image"\<close>, in the order of the response. The download tasks are made from
  these items only: the \<open>i\<close>-th task is \<^verbatim>\<open>download_image\<close> at the URL of the \<open>i\<close>-th
  kept item with the file name of index \<open>i\<close>, the run returns the results of exactly these
  tasks, in this order, and the state after the download stage is the one these tasks
  leave. The two hypotheses say that every download and every analysis job finishes once.
\<close>

theorem only_images_generate_tasks:
  assumes d: "complete_schedule (length (valid_items data)) dsched"
    and a: "complete_schedule (length (saved cfg session aio (valid_items data))) asched"
  shows "let kept = filter (\<lambda>item. map_of item ''media_type'' = Some (PStr ''image'')) data;
             tasks = map (\<lambda>i. download_image cfg session aio (item_url (kept ! i))
                              (target_filename i)) [0..<length kept]
         in valid_items data = kept \<and>
            download_tasks cfg session aio (valid_items data) = tasks \<and>
            (\<exists>r. main cfg session aio cv dsched asched data w0 out0 = Some r \<and>
                 download_files r = map (\<lambda>i. fst ((tasks ! i) w0)) [0..<length kept] \<and>
                 download_world r = snd (gather tasks dsched (w0\<lparr>pbar_n := 0\<rparr>)))"
proof -
  let ?kept = "filter (\<lambda>item. map_of item ''media_type'' = Some (PStr ''image'')) data"
  let ?tasks = "map (\<lambda>i. download_image cfg session aio (item_url (?kept ! i))
                              (target_filename i)) [0..<length ?kept]"
  have kept: "valid_items data = ?kept"
    by (simp add: valid_items_def dict_get_image)
  have tasks: "download_tasks cfg session aio (valid_items data) = ?tasks"
    unfolding kept by (rule download_tasks_map)
  have res: "map (\<lambda>i. if item_ok cfg session aio ?kept i then Some (target_filename i) else None)
        [0..<length ?kept] = map (\<lambda>i. fst ((?tasks ! i) w0)) [0..<length ?kept]"
    by (rule nth_equalityI) (simp_all add: download_image_result item_ok_def)
  have "main cfg session aio cv dsched asched data w0 out0 =
      Some \<lparr>download_files = map (\<lambda>i. fst ((?tasks ! i) w0)) [0..<length ?kept],
            download_world = snd (gather ?tasks dsched (w0\<lparr>pbar_n := 0\<rparr>)),
            downloaded_files = map target_filename (saved cfg session aio ?kept),
            analysis_summaries =
              map (summary_of cfg cv) (map target_filename (saved cfg session aio ?kept)),
            analysis_end =
              snd (gather
                    (map (analysis_job cfg cv) (map target_filename (saved cfg session aio ?kept)))
                    asched \<lparr>analysis_n = 0, processed = out0\<rparr>)\<rparr>"
    using main_run [OF d a, of cv w0 out0] unfolding tasks unfolding kept res .
  then show ?thesis
    unfolding Let_def using kept tasks by simp
qed

theorem only_images_generate_tasks_witness:
  "complete_schedule (length (valid_items demo_data)) [2, 0, 1] \<and>
   complete_schedule (length (saved demo_cfg demo_session demo_aio (valid_items demo_data))) [0] \<and>
   valid_items demo_data =
     [[(''media_type'', PStr ''image''), (''hdurl'', PStr ''h0''), (''url'', PStr ''u0'')],
      [(''media_type'', PStr ''image''), (''url'', PStr ''u1'')],
      [(''media_type'', PStr ''image''), (''hdurl'', PStr ''h2'')]] \<and>
   (\<exists>r. main demo_cfg demo_session demo_aio demo_cv [2, 0, 1] [0] demo_data demo_world Map.empty
          = Some r \<and>
        download_files r = [Some ''space_0.jpg'', None, None])"
proof -
  have d: "complete_schedule (length (valid_items demo_data)) [2, 0, 1]"
    by (simp add: demo_length schedule_3)
  have a: "complete_schedule
      (length (saved demo_cfg demo_session demo_aio (valid_items demo_data))) [0]"
    by (simp add: demo_saved schedule_1)
  have kept: "filter (\<lambda>item. map_of item ''media_type'' = Some (PStr ''image'')) demo_data =
      [[(''media_type'', PStr ''image''), (''hdurl'', PStr ''h0''), (''url'', PStr ''u0'')],
       [(''media_type'', PStr ''image''), (''url'', PStr ''u1'')],
       [(''media_type'', PStr ''image''), (''hdurl'', PStr ''h2'')]]"
    by (simp add: demo_data_def)
  have res:
    "fst (download_image demo_cfg demo_session demo_aio (PStr ''h0'') ''space_0.jpg'' demo_world)
       = Some ''space_0.jpg''"
    "fst (download_image demo_cfg demo_session demo_aio (PStr ''u1'') ''space_1.jpg'' demo_world)
       = None"
    "fst (download_image demo_cfg demo_session demo_aio (PStr ''h2'') ''space_2.jpg'' demo_world)
       = None"
    by (simp_all add: download_image_def demo_session_def demo_aio_def on_exception_def)
  from only_images_generate_tasks [OF d a, of demo_cv demo_world Map.empty]
  obtain r where
    "main demo_cfg demo_session demo_aio demo_cv [2, 0, 1] [0] demo_data demo_world Map.empty = Some r"
    "download_files r = [Some ''space_0.jpg'', None, None]"
    unfolding Let_def kept
    by (auto simp add: upt_3 demo_names res item_url_def py_or_def dict_get_def)
  with d a show ?thesis
    by (simp add: demo_valid_items)
qed

section \<open>Prints and files of the download stage\<close>

lemma stage_prints_line:
  assumes sched: "complete_schedule (length items) sched"
    and i: "i < length items"
    and est: "\<And>w. line \<in> set (stdout (snd (download_image cfg session aio
                 (item_url (items ! i)) (target_filename i) w)))"
  shows "line \<in> set (stdout (snd (gather (download_tasks cfg session aio items) sched w)))"
proof -
  let ?tasks = "download_tasks cfg session aio items"
  let ?Q = "\<lambda>s. line \<in> set (stdout s)"
  have pres: "\<And>j s. j < length ?tasks \<Longrightarrow> ?Q s \<Longrightarrow> ?Q (snd ((?tasks ! j) s))"
    by (simp add: length_download_tasks nth_download_tasks download_image_stdout_grows)
  have est': "\<And>s. ?Q (snd ((?tasks ! i) s))"
    using i est by (simp add: nth_download_tasks)
  have i': "i < length ?tasks"
    using i by (simp add: length_download_tasks)
  have mem: "i \<in> set sched"
    using complete_schedule_set [OF sched] i by simp
  show ?thesis
    unfolding gather_def using pres est' i' mem by (rule fold_finish_establish)
qed

lemma stage_keeps_file:
  assumes i: "i < length items"
    and keep: "\<And>w. disk (snd (download_image cfg session aio
                 (item_url (items ! i)) (target_filename i) w)) = disk w"
  shows "disk (snd (gather (download_tasks cfg session aio items) sched w))
           (path_join (SAVE_DIR cfg) (target_filename i)) =
         disk w (path_join (SAVE_DIR cfg) (target_filename i))"
proof -
  let ?tasks = "download_tasks cfg session aio items"
  let ?p = "path_join (SAVE_DIR cfg) (target_filename i)"
  let ?Q = "\<lambda>s. disk s ?p = disk w ?p"
  have pres: "?Q (snd ((?tasks ! j) s))" if j: "j < length ?tasks" and q: "?Q s" for j s
  proof (cases "j = i")
    case True
    then show ?thesis using i q keep by (simp add: nth_download_tasks)
  next
    case False
    then have "?p \<noteq> path_join (SAVE_DIR cfg) (target_filename j)"
      using save_path_inj [of "SAVE_DIR cfg" i j] by auto
    then have "disk (snd (download_image cfg session aio (item_url (items ! j))
        (target_filename j) s)) ?p = disk s ?p"
      by (rule download_image_other_path)
    then show ?thesis
      using j q by (simp add: length_download_tasks nth_download_tasks)
  qed
  have init: "?Q (snd (replicate (length ?tasks) None, w))"
    by simp
  show ?thesis
    unfolding gather_def using pres init by (rule fold_finish_invariant)
qed

lemma fold_finish_no_tasks: "fold (finish []) sched rs = rs"
  by (induction sched) (simp_all add: finish_def)

lemma gather_no_tasks: "gather [] sched s = ([], s)"
  by (simp add: gather_def fold_finish_no_tasks)

section \<open>More of the sample run\<close>

lemma str_int_404: "str_int 404 = ''404''"
  by code_simp

lemma demo_urls:
  "item_url (valid_items demo_data ! 0) = PStr ''h0''"
  "item_url (valid_items demo_data ! Suc 0) = PStr ''u1''"
  "item_url (valid_items demo_data ! 2) = PStr ''h2''"
  by (simp_all add: demo_valid_items item_url_def py_or_def dict_get_def)

lemma demo_bad:
  "\<not> bad_status demo_session (item_url (valid_items demo_data ! 0))"
  "bad_status demo_session (item_url (valid_items demo_data ! Suc 0))"
  "\<not> bad_status demo_session (item_url (valid_items demo_data ! 2))"
  by (simp_all add: demo_urls bad_status_def demo_session_def)

lemma demo_schedules:
  "complete_schedule (length (valid_items demo_data)) [2, 0, Suc 0]"
  "complete_schedule (length (valid_items demo_data)) [0, Suc 0, 2]"
  "complete_schedule (length (saved demo_cfg demo_session demo_aio (valid_items demo_data))) [0]"
  by (simp_all add: demo_length demo_saved schedule_3 schedule_1)

section \<open>The download stage of a run\<close>

text \<open>
  Claim C1, evaluated on the sample run. The response has three image items, so the bar
  is created with \<^verbatim>\<open>total=3\<close> and three downloads are attempted; the second is answered
  with status 404. After the gather the count of the bar is 2 and not 3: the branch of
  \<^verbatim>\<open>download_image\<close> for a status other than 200 prints and falls out of the function
  without \<^verbatim>\<open>pbar.update(1)\<close>, unlike the two other branches.
\<close>

theorem download_counter_skips_bad_status:
  "map_option (\<lambda>r. (length (download_files r), pbar_n (download_world r)))
     (main demo_cfg demo_session demo_aio demo_cv [0, 1, 2] [0] demo_data demo_world Map.empty)
     = Some (3, 2) \<and>
   demo_session (item_url (valid_items demo_data ! 1)) = Inr \<lparr>status = 404, read_body = Inr []\<rparr>"
proof -
  have "pbar_n (snd (gather (download_tasks demo_cfg demo_session demo_aio (valid_items demo_data))
      [0, Suc 0, 2] (demo_world\<lparr>pbar_n := 0\<rparr>))) = 2"
    unfolding download_stage_count [OF demo_schedules(2)]
    by (simp add: demo_length upt_3 demo_bad)
  then show ?thesis
    using main_run [OF demo_schedules(2) demo_schedules(3), of demo_cv demo_world Map.empty]
    by (simp add: demo_length demo_urls demo_session_def)
qed

text \<open>
  Claim C2. In a run of \<^verbatim>\<open>main\<close>, \<^verbatim>\<open>download_files\<close> has one entry per filtered item,
  in the order of the filtered list: the name \<^verbatim>\<open>space_<i>.jpg\<close> at position \<open>i\<close> when the
  \<open>i\<close>-th item is downloaded and saved, and \<^verbatim>\<open>None\<close> otherwise. The list
  \<^verbatim>\<open>downloaded_files\<close> the caller filters from it holds exactly the names of the saved
  items, in increasing order of position. The two hypotheses say that every download and
  every analysis job finishes once.
\<close>

theorem download_results_in_order:
  assumes d: "complete_schedule (length (valid_items data)) dsched"
    and a: "complete_schedule (length (saved cfg session aio (valid_items data))) asched"
  shows "\<exists>r. main cfg session aio cv dsched asched data w0 out0 = Some r \<and>
     length (download_files r) = length (valid_items data) \<and>
     download_files r =
       map (\<lambda>i. if item_ok cfg session aio (valid_items data) i
                then Some (''space_'' @ str_nat i @ ''.jpg'') else None)
         [0..<length (valid_items data)] \<and>
     downloaded_files r = filter_downloaded (download_files r) \<and>
     downloaded_files r =
       map (\<lambda>i. ''space_'' @ str_nat i @ ''.jpg'')
         (filter (item_ok cfg session aio (valid_items data)) [0..<length (valid_items data)])"
proof -
  have names: "target_filename = (\<lambda>i. ''space_'' @ str_nat i @ ''.jpg'')"
    by (rule ext) (simp add: target_filename_def)
  have "\<exists>r. main cfg session aio cv dsched asched data w0 out0 = Some r \<and>
     length (download_files r) = length (valid_items data) \<and>
     download_files r =
       map (\<lambda>i. if item_ok cfg session aio (valid_items data) i
                then Some (target_filename i) else None)
         [0..<length (valid_items data)] \<and>
     downloaded_files r = filter_downloaded (download_files r) \<and>
     downloaded_files r =
       map target_filename
         (filter (item_ok cfg session aio (valid_items data)) [0..<length (valid_items data)])"
    using main_run [OF d a, of cv w0 out0] by (simp add: saved_names) (simp add: saved_def)
  then show ?thesis
    unfolding names .
qed

theorem download_results_in_order_witness:
  "complete_schedule (length (valid_items demo_data)) [2, 0, 1] \<and>
   complete_schedule (length (saved demo_cfg demo_session demo_aio (valid_items demo_data))) [0] \<and>
   (\<exists>r. main demo_cfg demo_session demo_aio demo_cv [2, 0, 1] [0] demo_data demo_world Map.empty
          = Some r \<and>
        download_files r = [Some ''space_0.jpg'', None, None] \<and>
        downloaded_files r = [''space_0.jpg''])"
proof -
  from download_results_in_order [OF demo_schedules(1) demo_schedules(3),
      of demo_cv demo_world Map.empty]
  obtain r where
    "main demo_cfg demo_session demo_aio demo_cv [2, 0, 1] [0] demo_data demo_world Map.empty = Some r"
    "download_files r = [Some ''space_0.jpg'', None, None]"
    "downloaded_files r = [''space_0.jpg'']"
    by (auto simp add: demo_length upt_3 demo_ok demo_digits)
  with demo_schedules show ?thesis
    by simp
qed

text \<open>
  Claim C9. When no item of the response passes the filter, the download stage returns
  the empty list, the analysis stage returns the empty list, and \<^verbatim>\<open>main\<close> runs to its
  end with both lists empty, the bar at 0 and nothing written. With no task at hand no
  order of completion matters.
\<close>

theorem empty_run_completes:
  assumes "valid_items data = []"
  shows "download_stage cfg session aio dsched (valid_items data) w0 =
       Some ([], w0\<lparr>pbar_n := 0\<rparr>) \<and>
     analysis_stage cfg cv asched [] out0 = Some ([], \<lparr>analysis_n = 0, processed = out0\<rparr>) \<and>
     main cfg session aio cv dsched asched data w0 out0 =
       Some \<lparr>download_files = [], download_world = w0\<lparr>pbar_n := 0\<rparr>, downloaded_files = [],
             analysis_summaries = [],
             analysis_end = \<lparr>analysis_n = 0, processed = out0\<rparr>\<rparr>"
  using assms
  by (simp add: main_def download_stage_def analysis_stage_def download_tasks_def task_args_def
      enumerate_eq_zip gather_no_tasks gathered_def filter_downloaded_def)

theorem empty_run_completes_witness:
  "valid_items [[(''media_type'', PStr ''video''), (''url'', PStr ''v'')]] = [] \<and>
   main demo_cfg demo_session demo_aio demo_cv [] []
     [[(''media_type'', PStr ''video''), (''url'', PStr ''v'')]] demo_world Map.empty =
     Some \<lparr>download_files = [], download_world = demo_world, downloaded_files = [],
           analysis_summaries = [],
           analysis_end = \<lparr>analysis_n = 0, processed = Map.empty\<rparr>\<rparr>"
proof -
  have e: "valid_items [[(''media_type'', PStr ''video''), (''url'', PStr ''v'')]] = []"
    by (simp add: valid_items_def dict_get_def)
  from empty_run_completes [OF e, of demo_cfg demo_session demo_aio "[]" demo_world demo_cv "[]"
      Map.empty]
  show ?thesis
    using e by (simp add: demo_world_def)
qed

section \<open>Failed downloads\<close>

lemma bad_status_not_ok:
  assumes "session url = Inr resp" "status resp \<noteq> 200"
  shows "\<not> download_ok cfg session aio url filename"
  using assms by (simp add: download_ok_def)

lemma raised_not_ok:
  assumes "raised cfg session aio url filename = Some e"
  shows "\<not> download_ok cfg session aio url filename"
  using assms unfolding raised_def download_ok_def
  by (auto split: sum.splits write_outcome.splits if_splits)

lemma unsaved_name:
  assumes "\<not> item_ok cfg session aio items i"
  shows "target_filename i \<notin> set (map target_filename (saved cfg session aio items))"
proof
  assume "target_filename i \<in> set (map target_filename (saved cfg session aio items))"
  then obtain j where j: "j \<in> set (saved cfg session aio items)"
    and eq: "target_filename i = target_filename j"
    by auto
  from eq have "i = j" by (rule target_filename_inj)
  with j have "item_ok cfg session aio items i" by (simp add: saved_def)
  with assms show False by simp
qed

lemma main_stages:
  assumes d: "complete_schedule (length (valid_items data)) dsched"
    and a: "complete_schedule (length (saved cfg session aio (valid_items data))) asched"
  shows "\<exists>r. main cfg session aio cv dsched asched data w0 out0 = Some r \<and>
     download_files r =
       map (\<lambda>i. if item_ok cfg session aio (valid_items data) i
                then Some (target_filename i) else None)
         [0..<length (valid_items data)] \<and>
     download_world r =
       snd (gather (download_tasks cfg session aio (valid_items data)) dsched
              (w0\<lparr>pbar_n := 0\<rparr>)) \<and>
     downloaded_files r = map target_filename (saved cfg session aio (valid_items data)) \<and>
     analysis_stage cfg cv asched (downloaded_files r) out0 =
       Some (analysis_summaries r, analysis_end r)"
proof -
  have a': "complete_schedule
      (length (map target_filename (saved cfg session aio (valid_items data)))) asched"
    using a by simp
  show ?thesis
    using main_run [OF d a, of cv w0 out0] analysis_stage_results [OF a', of cfg cv out0]
    by simp
qed

text \<open>
  Claim C4. Let the request of the \<open>i\<close>-th filtered item be answered with a status other
  than 200. Then the run of \<^verbatim>\<open>main\<close> goes on to its end, and: the line
  \<^verbatim>\<open>Failed to download space_<i>.jpg: <status>\<close> has been printed; the task of this item
  leaves the disk as it finds it, and the file of this item is after the download stage
  what it was before; the result of the item is \<^verbatim>\<open>None\<close>; its name is not in the list
  \<^verbatim>\<open>downloaded_files\<close>, which is the list the analysis stage is run on; and every item,
  this one and its siblings, has the result its own request and write determine.
\<close>

theorem bad_status_is_isolated_failure:
  assumes d: "complete_schedule (length (valid_items data)) dsched"
    and a: "complete_schedule (length (saved cfg session aio (valid_items data))) asched"
    and i: "i < length (valid_items data)"
    and resp: "session (item_url (valid_items data ! i)) = Inr resp"
    and st: "status resp \<noteq> 200"
  shows "\<exists>r. main cfg session aio cv dsched asched data w0 out0 = Some r \<and>
     (''Failed to download '' @ target_filename i @ '': '' @ str_int (status resp))
       \<in> set (stdout (download_world r)) \<and>
     (\<forall>w. disk (snd (download_image cfg session aio (item_url (valid_items data ! i))
                      (target_filename i) w)) = disk w) \<and>
     disk (download_world r) (path_join (SAVE_DIR cfg) (target_filename i)) =
       disk w0 (path_join (SAVE_DIR cfg) (target_filename i)) \<and>
     download_files r ! i = None \<and>
     target_filename i \<notin> set (downloaded_files r) \<and>
     analysis_stage cfg cv asched (downloaded_files r) out0 =
       Some (analysis_summaries r, analysis_end r) \<and>
     length (download_files r) = length (valid_items data) \<and>
     download_files r =
       map (\<lambda>j. if item_ok cfg session aio (valid_items data) j
                then Some (target_filename j) else None)
         [0..<length (valid_items data)]"
proof -
  let ?items = "valid_items data"
  let ?line = "''Failed to download '' @ target_filename i @ '': '' @ str_int (status resp)"
  have task: "download_image cfg session aio (item_url (?items ! i)) (target_filename i) w =
      (None, w\<lparr>stdout := stdout w @ [?line]\<rparr>)" for w
    using resp st by (rule download_image_bad_status)
  have keep: "\<And>w. disk (snd (download_image cfg session aio (item_url (?items ! i))
      (target_filename i) w)) = disk w"
    by (simp add: task)
  have est: "\<And>w. ?line \<in> set (stdout (snd (download_image cfg session aio
      (item_url (?items ! i)) (target_filename i) w)))"
    by (simp add: task)
  have line: "?line \<in> set (stdout (snd (gather (download_tasks cfg session aio ?items) dsched
      (w0\<lparr>pbar_n := 0\<rparr>))))"
    using d i est by (rule stage_prints_line)
  have untouched: "disk (snd (gather (download_tasks cfg session aio ?items) dsched
      (w0\<lparr>pbar_n := 0\<rparr>))) (path_join (SAVE_DIR cfg) (target_filename i)) =
      disk (w0\<lparr>pbar_n := 0\<rparr>) (path_join (SAVE_DIR cfg) (target_filename i))"
    using i keep by (rule stage_keeps_file)
  have not_ok: "\<not> item_ok cfg session aio ?items i"
    unfolding item_ok_def using resp st by (rule bad_status_not_ok)
  have name: "target_filename i \<notin> set (map target_filename (saved cfg session aio ?items))"
    using not_ok by (rule unsaved_name)
  from main_stages [OF d a, of cv w0 out0] obtain r where
    r: "main cfg session aio cv dsched asched data w0 out0 = Some r"
      "download_files r =
         map (\<lambda>i. if item_ok cfg session aio ?items i then Some (target_filename i) else None)
           [0..<length ?items]"
      "download_world r =
         snd (gather (download_tasks cfg session aio ?items) dsched (w0\<lparr>pbar_n := 0\<rparr>))"
      "downloaded_files r = map target_filename (saved cfg session aio ?items)"
      "analysis_stage cfg cv asched (downloaded_files r) out0 =
         Some (analysis_summaries r, analysis_end r)"
    by blast
  have "download_files r ! i = None"
    using i not_ok by (simp add: r(2))
  moreover have "length (download_files r) = length ?items"
    by (simp add: r(2))
  ultimately show ?thesis
    using r line untouched keep name by (intro exI [of _ r]) simp
qed

theorem bad_status_is_isolated_failure_witness:
  "complete_schedule (length (valid_items demo_data)) [2, 0, 1] \<and>
   complete_schedule (length (saved demo_cfg demo_session demo_aio (valid_items demo_data))) [0] \<and>
   1 < length (valid_items demo_data) \<and>
   demo_session (item_url (valid_items demo_data ! 1)) = Inr \<lparr>status = 404, read_body = Inr []\<rparr> \<and>
   status \<lparr>status = 404, read_body = Inr []\<rparr> \<noteq> 200 \<and>
   (\<exists>r. main demo_cfg demo_session demo_aio demo_cv [2, 0, 1] [0] demo_data demo_world Map.empty
          = Some r \<and>
        ''Failed to download space_1.jpg: 404'' \<in> set (stdout (download_world r)) \<and>
        disk (download_world r) ''images/space_1.jpg'' = None \<and>
        download_files r = [Some ''space_0.jpg'', None, None] \<and>
        ''space_1.jpg'' \<notin> set (downloaded_files r))"
proof -
  have i: "Suc 0 < length (valid_items demo_data)"
    by (simp add: demo_length)
  have resp: "demo_session (item_url (valid_items demo_data ! Suc 0)) =
      Inr \<lparr>status = 404, read_body = Inr []\<rparr>"
    by (simp add: demo_urls demo_session_def)
  have st: "status \<lparr>status = 404, read_body = Inr ([] :: nat list)\<rparr> \<noteq> 200"
    by simp
  have path: "path_join (SAVE_DIR demo_cfg) ''space_1.jpg'' = ''images/space_1.jpg''"
    by (simp add: path_join_def demo_cfg_def)
  from bad_status_is_isolated_failure [OF demo_schedules(1) demo_schedules(3) i resp st,
      of demo_cv demo_world Map.empty]
  obtain r where
    "main demo_cfg demo_session demo_aio demo_cv [2, 0, 1] [0] demo_data demo_world Map.empty = Some r"
    "''Failed to download space_1.jpg: 404'' \<in> set (stdout (download_world r))"
    "disk (download_world r) ''images/space_1.jpg'' = None"
    "download_files r = [Some ''space_0.jpg'', None, None]"
    "''space_1.jpg'' \<notin> set (downloaded_files r)"
    by (auto simp add: demo_length upt_3 demo_ok demo_names str_int_404 path demo_world_def)
  with demo_schedules i resp show ?thesis
    by simp
qed

text \<open>
  Claim C5. Let the task of the \<open>i\<close>-th filtered item raise an exception with text \<open>e\<close>:
  in the request, in reading the body, or in opening or writing the file. Then the task
  itself returns \<^verbatim>\<open>None\<close> after printing \<^verbatim>\<open>Error downloading space_<i>.jpg: <e>\<close>, the
  run of \<^verbatim>\<open>main\<close> goes on to its end, the line is among those printed, the result of the
  item is \<^verbatim>\<open>None\<close> and its name is not passed on, and the download stage returns one
  result per filtered item, each the one its own request and write determine.
\<close>

theorem raised_exception_is_isolated_failure:
  assumes d: "complete_schedule (length (valid_items data)) dsched"
    and a: "complete_schedule (length (saved cfg session aio (valid_items data))) asched"
    and i: "i < length (valid_items data)"
    and e: "raised cfg session aio (item_url (valid_items data ! i)) (target_filename i) = Some e"
  shows "\<exists>r. main cfg session aio cv dsched asched data w0 out0 = Some r \<and>
     (\<forall>w. fst (download_image cfg session aio (item_url (valid_items data ! i))
                 (target_filename i) w) = None \<and>
          stdout (snd (download_image cfg session aio (item_url (valid_items data ! i))
                 (target_filename i) w)) =
            stdout w @ [''Error downloading '' @ target_filename i @ '': '' @ e]) \<and>
     (''Error downloading '' @ target_filename i @ '': '' @ e) \<in> set (stdout (download_world r)) \<and>
     download_files r ! i = None \<and>
     target_filename i \<notin> set (downloaded_files r) \<and>
     length (download_files r) = length (valid_items data) \<and>
     download_files r =
       map (\<lambda>j. if item_ok cfg session aio (valid_items data) j
                then Some (target_filename j) else None)
         [0..<length (valid_items data)]"
proof -
  let ?items = "valid_items data"
  let ?line = "''Error downloading '' @ target_filename i @ '': '' @ e"
  note task = download_image_raised [OF e]
  have est: "\<And>w. ?line \<in> set (stdout (snd (download_image cfg session aio
      (item_url (?items ! i)) (target_filename i) w)))"
    by (simp add: task)
  have line: "?line \<in> set (stdout (snd (gather (download_tasks cfg session aio ?items) dsched
      (w0\<lparr>pbar_n := 0\<rparr>))))"
    using d i est by (rule stage_prints_line)
  have not_ok: "\<not> item_ok cfg session aio ?items i"
    unfolding item_ok_def using e by (rule raised_not_ok)
  have name: "target_filename i \<notin> set (map target_filename (saved cfg session aio ?items))"
    using not_ok by (rule unsaved_name)
  from main_stages [OF d a, of cv w0 out0] obtain r where
    r: "main cfg session aio cv dsched asched data w0 out0 = Some r"
      "download_files r =
         map (\<lambda>i. if item_ok cfg session aio ?items i then Some (target_filename i) else None)
           [0..<length ?items]"
      "download_world r =
         snd (gather (download_tasks cfg session aio ?items) dsched (w0\<lparr>pbar_n := 0\<rparr>))"
      "downloaded_files r = map target_filename (saved cfg session aio ?items)"
    by blast
  have "download_files r ! i = None"
    using i not_ok by (simp add: r(2))
  moreover have "length (download_files r) = length ?items"
    by (simp add: r(2))
  ultimately show ?thesis
    using r line name task by (intro exI [of _ r]) simp
qed

theorem raised_exception_is_isolated_failure_witness:
  "complete_schedule (length (valid_items demo_data)) [2, 0, 1] \<and>
   complete_schedule (length (saved demo_cfg demo_session demo_aio (valid_items demo_data))) [0] \<and>
   2 < length (valid_items demo_data) \<and>
   raised demo_cfg demo_session demo_aio (item_url (valid_items demo_data ! 2)) (target_filename 2)
     = Some ''timeout'' \<and>
   (\<exists>r. main demo_cfg demo_session demo_aio demo_cv [2, 0, 1] [0] demo_data demo_world Map.empty
          = Some r \<and>
        ''Error downloading space_2.jpg: timeout'' \<in> set (stdout (download_world r)) \<and>
        download_files r = [Some ''space_0.jpg'', None, None] \<and>
        ''space_2.jpg'' \<notin> set (downloaded_files r))"
proof -
  have i: "2 < length (valid_items demo_data)"
    by (simp add: demo_length)
  have e: "raised demo_cfg demo_session demo_aio (item_url (valid_items demo_data ! 2))
      (target_filename 2) = Some ''timeout''"
    by (simp add: demo_urls raised_def demo_session_def)
  from raised_exception_is_isolated_failure [OF demo_schedules(1) demo_schedules(3) i e,
      of demo_cv demo_world Map.empty]
  obtain r where
    "main demo_cfg demo_session demo_aio demo_cv [2, 0, 1] [0] demo_data demo_world Map.empty = Some r"
    "''Error downloading space_2.jpg: timeout'' \<in> set (stdout (download_world r))"
    "download_files r = [Some ''space_0.jpg'', None, None]"
    "''space_2.jpg'' \<notin> set (downloaded_files r)"
    by (auto simp add: demo_length upt_3 demo_ok demo_names)
  with demo_schedules i e show ?thesis
    by simp
qed

section \<open>The analysis stage of a run\<close>

lemma detect_stars_and_process_unreadable:
  assumes "imread cv (path_join (SAVE_DIR cfg) filename) = None"
  shows "detect_stars_and_process cfg cv filename out = (''Error loading '' @ filename, out)"
  using assms by (simp add: detect_stars_and_process_def)

lemma summary_of_unreadable:
  assumes "imread cv (path_join (SAVE_DIR cfg) filename) = None"
  shows "summary_of cfg cv filename = ''Error loading '' @ filename"
  using assms by (simp add: summary_of_def)

lemma schedule_2: "complete_schedule (Suc (Suc 0)) [Suc 0, 0]"
  by (simp add: complete_schedule_def add_mset_commute)

lemma demo_summaries:
  "summary_of demo_cfg demo_cv ''space_0.jpg'' = ''Found 3 stars in space_0.jpg''"
  "summary_of demo_cfg demo_cv ''broken.jpg'' = ''Error loading broken.jpg''"
  by code_simp+

lemma demo_unreadable: "imread demo_cv (path_join (SAVE_DIR demo_cfg) ''broken.jpg'') = None"
  by (simp add: demo_cv_def demo_cfg_def path_join_def)

text \<open>
  Claim C3. Given any list of file names, the analysis stage returns a list of the same
  length whose \<open>i\<close>-th entry is what \<^verbatim>\<open>detect_stars_and_process\<close> returns for the \<open>i\<close>-th
  name; when \<^verbatim>\<open>cv2.imread\<close> cannot load the file of a name, the function returns the
  string \<^verbatim>\<open>Error loading <name>\<close> and writes nothing, and that string is the entry of
  the name. In a run of \<^verbatim>\<open>main\<close> the stage is given \<^verbatim>\<open>downloaded_files\<close> and returns one
  summary per file. The hypotheses say that every job, and every download, finishes once.
\<close>

theorem analysis_one_result_per_file:
  assumes s: "complete_schedule (length files) sched"
    and d: "complete_schedule (length (valid_items data)) dsched"
    and a: "complete_schedule (length (saved cfg session aio (valid_items data))) asched"
  shows "(\<exists>summaries w. analysis_stage cfg cv sched files out0 = Some (summaries, w) \<and>
        length summaries = length files \<and>
        (\<forall>i<length files. \<forall>out.
           summaries ! i = fst (detect_stars_and_process cfg cv (files ! i) out)) \<and>
        (\<forall>i<length files. imread cv (path_join (SAVE_DIR cfg) (files ! i)) = None \<longrightarrow>
           summaries ! i = ''Error loading '' @ files ! i)) \<and>
     (\<forall>f out. imread cv (path_join (SAVE_DIR cfg) f) = None \<longrightarrow>
        detect_stars_and_process cfg cv f out = (''Error loading '' @ f, out)) \<and>
     (\<exists>r. main cfg session aio cv dsched asched data w0 out0 = Some r \<and>
        analysis_stage cfg cv asched (downloaded_files r) out0 =
          Some (analysis_summaries r, analysis_end r) \<and>
        length (analysis_summaries r) = length (downloaded_files r))"
proof -
  have "\<exists>r. main cfg session aio cv dsched asched data w0 out0 = Some r \<and>
        analysis_stage cfg cv asched (downloaded_files r) out0 =
          Some (analysis_summaries r, analysis_end r) \<and>
        length (analysis_summaries r) = length (downloaded_files r)"
    using main_stages [OF d a, of cv w0 out0] main_run [OF d a, of cv w0 out0] by auto
  then show ?thesis
    using analysis_stage_results [OF s, of cfg cv out0]
    by (simp add: detect_stars_and_process_summary summary_of_unreadable
        detect_stars_and_process_unreadable)
qed

theorem analysis_one_result_per_file_witness:
  "complete_schedule (length [''space_0.jpg'', ''broken.jpg'']) [1, 0] \<and>
   complete_schedule (length (valid_items demo_data)) [2, 0, 1] \<and>
   complete_schedule (length (saved demo_cfg demo_session demo_aio (valid_items demo_data))) [0] \<and>
   imread demo_cv (path_join (SAVE_DIR demo_cfg) ''broken.jpg'') = None \<and>
   (\<exists>summaries w.
      analysis_stage demo_cfg demo_cv [1, 0] [''space_0.jpg'', ''broken.jpg''] Map.empty =
        Some (summaries, w) \<and>
      length summaries = 2 \<and> summaries ! 1 = ''Error loading broken.jpg'') \<and>
   (\<exists>r. main demo_cfg demo_session demo_aio demo_cv [2, 0, 1] [0] demo_data demo_world Map.empty
          = Some r \<and>
        length (analysis_summaries r) = length (downloaded_files r))"
proof -
  have s: "complete_schedule (length [''space_0.jpg'', ''broken.jpg'']) [Suc 0, 0]"
    by (simp add: schedule_2)
  from analysis_one_result_per_file [OF s demo_schedules(1) demo_schedules(3),
      of demo_cv Map.empty demo_world]
  have "(\<exists>summaries w.
      analysis_stage demo_cfg demo_cv [1, 0] [''space_0.jpg'', ''broken.jpg''] Map.empty =
        Some (summaries, w) \<and>
      length summaries = 2 \<and> summaries ! 1 = ''Error loading broken.jpg'') \<and>
   (\<exists>r. main demo_cfg demo_session demo_aio demo_cv [2, 0, 1] [0] demo_data demo_world Map.empty
          = Some r \<and>
        length (analysis_summaries r) = length (downloaded_files r))"
    using demo_unreadable by (auto simp add: All_less_Suc numeral_2_eq_2)
  with s demo_schedules demo_unreadable show ?thesis
    by simp
qed

text \<open>
  Claim C6. Every analysis job adds one to the count of the analysis bar when it is done,
  whatever it returns, so after the gather over the jobs of \<open>M\<close> file names the count
  is \<open>M\<close>; in a run of \<^verbatim>\<open>main\<close> it is the number of downloaded files.
\<close>

theorem analysis_counter_ends_at_total:
  assumes s: "complete_schedule (length files) sched"
    and d: "complete_schedule (length (valid_items data)) dsched"
    and a: "complete_schedule (length (saved cfg session aio (valid_items data))) asched"
  shows "(\<exists>summaries w. analysis_stage cfg cv sched files out0 = Some (summaries, w) \<and>
        analysis_n w = length files) \<and>
     (\<forall>f w. analysis_n (snd (analysis_job cfg cv f w)) = analysis_n w + 1) \<and>
     (\<exists>r. main cfg session aio cv dsched asched data w0 out0 = Some r \<and>
        analysis_n (analysis_end r) = length (downloaded_files r))"
proof -
  have a': "complete_schedule
      (length (map target_filename (saved cfg session aio (valid_items data)))) asched"
    using a by simp
  have "\<exists>r. main cfg session aio cv dsched asched data w0 out0 = Some r \<and>
        analysis_n (analysis_end r) = length (downloaded_files r)"
    using main_run [OF d a, of cv w0 out0] analysis_stage_count [OF a', of cfg cv out0]
    by simp
  then show ?thesis
    using analysis_stage_results [OF s, of cfg cv out0] analysis_stage_count [OF s, of cfg cv out0]
    by (simp add: analysis_job_count)
qed

theorem analysis_counter_ends_at_total_witness:
  "complete_schedule (length [''space_0.jpg'', ''broken.jpg'']) [1, 0] \<and>
   complete_schedule (length (valid_items demo_data)) [2, 0, 1] \<and>
   complete_schedule (length (saved demo_cfg demo_session demo_aio (valid_items demo_data))) [0] \<and>
   (\<exists>summaries w.
      analysis_stage demo_cfg demo_cv [1, 0] [''space_0.jpg'', ''broken.jpg''] Map.empty =
        Some (summaries, w) \<and> analysis_n w = 2) \<and>
   (\<exists>r. main demo_cfg demo_session demo_aio demo_cv [2, 0, 1] [0] demo_data demo_world Map.empty
          = Some r \<and>
        downloaded_files r = [''space_0.jpg''] \<and> analysis_n (analysis_end r) = 1)"
proof -
  have s: "complete_schedule (length [''space_0.jpg'', ''broken.jpg'']) [Suc 0, 0]"
    by (simp add: schedule_2)
  have m: "\<exists>r. main demo_cfg demo_session demo_aio demo_cv [2, 0, 1] [0] demo_data demo_world
      Map.empty = Some r \<and> downloaded_files r = [''space_0.jpg'']"
    using main_run [OF demo_schedules(1) demo_schedules(3), of demo_cv demo_world Map.empty]
    by (simp add: demo_saved demo_names)
  from analysis_counter_ends_at_total [OF s demo_schedules(1) demo_schedules(3),
      of demo_cv Map.empty demo_world]
  have "(\<exists>summaries w.
      analysis_stage demo_cfg demo_cv [1, 0] [''space_0.jpg'', ''broken.jpg''] Map.empty =
        Some (summaries, w) \<and> analysis_n w = 2) \<and>
   (\<exists>r. main demo_cfg demo_session demo_aio demo_cv [2, 0, 1] [0] demo_data demo_world Map.empty
          = Some r \<and>
        downloaded_files r = [''space_0.jpg''] \<and> analysis_n (analysis_end r) = 1)"
    using m by auto
  with s demo_schedules show ?thesis
    by simp
qed

text \<open>
  Claim C10. Whatever the order in which the jobs finish, the list of summaries the
  analysis stage returns is in the order of the file names it was given: its \<open>i\<close>-th
  entry is the summary of the \<open>i\<close>-th name. In a run of \<^verbatim>\<open>main\<close> the \<open>i\<close>-th summary is
  the one of the \<open>i\<close>-th downloaded file.
\<close>

theorem analysis_summaries_in_input_order:
  assumes s: "complete_schedule (length files) sched"
    and d: "complete_schedule (length (valid_items data)) dsched"
    and a: "complete_schedule (length (saved cfg session aio (valid_items data))) asched"
  shows "(\<exists>w. analysis_stage cfg cv sched files out0 = Some (map (summary_of cfg cv) files, w)) \<and>
     (\<forall>f out. fst (detect_stars_and_process cfg cv f out) = summary_of cfg cv f) \<and>
     (\<exists>r. main cfg session aio cv dsched asched data w0 out0 = Some r \<and>
        analysis_summaries r = map (summary_of cfg cv) (downloaded_files r))"
  using analysis_stage_results [OF s, of cfg cv out0] main_run [OF d a, of cv w0 out0]
  by (simp add: detect_stars_and_process_summary)

theorem analysis_summaries_in_input_order_witness:
  "complete_schedule (length [''space_0.jpg'', ''broken.jpg'']) [1, 0] \<and>
   complete_schedule (length (valid_items demo_data)) [2, 0, 1] \<and>
   complete_schedule (length (saved demo_cfg demo_session demo_aio (valid_items demo_data))) [0] \<and>
   (\<exists>w. analysis_stage demo_cfg demo_cv [1, 0] [''space_0.jpg'', ''broken.jpg''] Map.empty =
        Some ([''Found 3 stars in space_0.jpg'', ''Error loading broken.jpg''], w)) \<and>
   (\<exists>r. main demo_cfg demo_session demo_aio demo_cv [2, 0, 1] [0] demo_data demo_world Map.empty
          = Some r \<and>
        downloaded_files r = [''space_0.jpg''] \<and>
        analysis_summaries r = [''Found 3 stars in space_0.jpg''])"
proof -
  have s: "complete_schedule (length [''space_0.jpg'', ''broken.jpg'']) [Suc 0, 0]"
    by (simp add: schedule_2)
  have m: "\<exists>r. main demo_cfg demo_session demo_aio demo_cv [2, 0, 1] [0] demo_data demo_world
      Map.empty = Some r \<and> downloaded_files r = [''space_0.jpg'']"
    using main_run [OF demo_schedules(1) demo_schedules(3), of demo_cv demo_world Map.empty]
    by (simp add: demo_saved demo_names)
  from analysis_summaries_in_input_order [OF s demo_schedules(1) demo_schedules(3),
      of demo_cv Map.empty demo_world]
  have "(\<exists>w. analysis_stage demo_cfg demo_cv [1, 0] [''space_0.jpg'', ''broken.jpg''] Map.empty =
        Some ([''Found 3 stars in space_0.jpg'', ''Error loading broken.jpg''], w)) \<and>
   (\<exists>r. main demo_cfg demo_session demo_aio demo_cv [2, 0, 1] [0] demo_data demo_world Map.empty
          = Some r \<and>
        downloaded_files r = [''space_0.jpg''] \<and>
        analysis_summaries r = [''Found 3 stars in space_0.jpg''])"
    using m by (auto simp add: demo_summaries)
  with s demo_schedules show ?thesis
    by simp
qed

end
